theory Spec2Isabelle
  imports Complex_Main "HOL-Library.AList" "HOL-Library.Word"
begin

section \<open>Values, exceptions and the outside world\<close>

text \<open>
  The client of \<^verbatim>\<open>src/revit_family_maker/aps_client.py\<close> talks JSON over HTTPS.
  A parsed body is a \<open>json\<close> value; a Python \<^verbatim>\<open>dict\<close> is an association list (lookup by
  \<open>map_of\<close>, iteration in list order), Python's \<^verbatim>\<open>None\<close> is \<open>JNull\<close>. Numbers and the
  clock are reals: \<^verbatim>\<open>time.time()\<close> is a float, taken here without rounding.
\<close>

datatype json =
    JNull
  | JBool bool
  | JNum real
  | JStr string
  | JArr "json list"
  | JObj "(string \<times> json) list"

type_synonym bytes = "8 word list"

text \<open>
  Every \<^verbatim>\<open>raise\<close> of the module and of the libraries it calls is a value of \<open>exn\<close>.
  \<open>RequestError\<close> and \<open>HTTPStatusError\<close> are httpx's; \<open>RetryError\<close> is what tenacity
  raises when its attempts are used up (the decorators do not set \<^verbatim>\<open>reraise\<close>), wrapping
  the last exception. A \<open>RuntimeError\<close> carries the literal text of its f-string and the
  value interpolated after it, if any; a \<open>TimeoutError\<close> carries \<^verbatim>\<open>max_wait\<close>.
\<close>

datatype exn =
    RequestError
  | HTTPStatusError nat
  | JSONDecodeError
  | KeyError string
  | AttributeError
  | TypeError
  | RuntimeError string "json option"
  | TimeoutError real
  | RetryError exn

text \<open>
  What an HTTP call ends in: no response at all (a transport failure, httpx's
  \<open>RequestError\<close>), or a response with a status code and a body.
\<close>

datatype 'b http_result = NetworkFailure | Response nat 'b

text \<open>
  The remote side. Each endpoint answers the \<open>n\<close>-th call made to it (counted from 0)
  with the seconds the call takes and its outcome; the submission endpoint is given the
  posted document, the status endpoint the job id, a signed location its URL. A JSON body
  that does not parse is \<open>None\<close>.
\<close>

record env =
  token_post :: "nat \<Rightarrow> real \<times> json option http_result"
  workitems_post :: "json \<Rightarrow> nat \<Rightarrow> real \<times> json option http_result"
  workitem_get :: "json \<Rightarrow> nat \<Rightarrow> real \<times> json option http_result"
  signed_get :: "string \<Rightarrow> nat \<Rightarrow> real \<times> bytes http_result"

section \<open>The client object\<close>

record APSToken =
  access_token :: json
  expires_at :: real
  token_type :: json

record APSClient =
  client_id :: string
  client_secret :: string
  region :: string
  base_url :: string
  da_base :: string
  token :: "APSToken option"

text \<open>\<^verbatim>\<open>APSClient.__init__\<close>\<close>

definition APSClient_init :: "string \<Rightarrow> string \<Rightarrow> string \<Rightarrow> APSClient" where
  "APSClient_init cid secret reg =
     \<lparr>client_id = cid, client_secret = secret, region = reg,
      base_url = ''https://developer.api.autodesk.com'',
      da_base = ''https://developer.api.autodesk.com'' @ ''/da/'' @ reg @ ''/v3'',
      token = None\<rparr>"

text \<open>
  The state a method runs in: the client object, the clock, and a count of what has been
  done so far (calls per endpoint, bytes received from signed locations, sleeps with the
  newest first). Console output is not part of the state.
\<close>

record state =
  self :: APSClient
  now :: real
  auth_posts :: nat
  submit_posts :: nat
  status_gets :: nat
  download_gets :: nat
  downloaded :: nat
  slept :: "real list"

type_synonym 'a result = "(exn + 'a) \<times> state"

text \<open>A sleep of \<open>d\<close> seconds; \<^verbatim>\<open>asyncio.sleep\<close> returns at once for \<open>d \<le> 0\<close>.\<close>

definition sleep :: "real \<Rightarrow> state \<Rightarrow> state" where
  "sleep d s = s\<lparr>now := now s + max 0 d, slept := d # slept s\<rparr>"

definition set_token :: "APSToken \<Rightarrow> state \<Rightarrow> state" where
  "set_token tok s = s\<lparr>self := (self s)\<lparr>token := Some tok\<rparr>\<rparr>"

subsection \<open>Python and httpx primitives\<close>

text \<open>\<^verbatim>\<open>d.get(k, default)\<close>: only a dict has \<^verbatim>\<open>get\<close>.\<close>

definition py_get :: "json \<Rightarrow> string \<Rightarrow> json \<Rightarrow> exn + json" where
  "py_get d k dflt =
     (case d of
        JObj kvs \<Rightarrow> (case map_of kvs k of Some v \<Rightarrow> Inr v | None \<Rightarrow> Inr dflt)
      | _ \<Rightarrow> Inl AttributeError)"

text \<open>\<^verbatim>\<open>d[k]\<close> with a string key.\<close>

definition py_getitem :: "json \<Rightarrow> string \<Rightarrow> exn + json" where
  "py_getitem d k =
     (case d of
        JObj kvs \<Rightarrow> (case map_of kvs k of Some v \<Rightarrow> Inr v | None \<Rightarrow> Inl (KeyError k))
      | _ \<Rightarrow> Inl TypeError)"

text \<open>\<^verbatim>\<open>t + v\<close> for a float \<open>t\<close>: numbers and booleans add, anything else is a TypeError.\<close>

definition py_add :: "real \<Rightarrow> json \<Rightarrow> exn + real" where
  "py_add t v =
     (case v of
        JNum r \<Rightarrow> Inr (t + r)
      | JBool b \<Rightarrow> Inr (t + (if b then 1 else 0))
      | _ \<Rightarrow> Inl TypeError)"

text \<open>
  \<^verbatim>\<open>response.raise_for_status()\<close> passes the 2xx codes and raises
  \<open>HTTPStatusError\<close> for every other.
\<close>

definition is_success :: "nat \<Rightarrow> bool" where
  "is_success code \<longleftrightarrow> 200 \<le> code \<and> code \<le> 299"

text \<open>
  \<^verbatim>\<open>raise_for_status()\<close> followed by \<^verbatim>\<open>response.json()\<close> on the outcome of a call.
\<close>

definition checked_json :: "json option http_result \<Rightarrow> exn + json" where
  "checked_json r =
     (case r of
        NetworkFailure \<Rightarrow> Inl RequestError
      | Response code body \<Rightarrow>
          if \<not> is_success code then Inl (HTTPStatusError code)
          else (case body of None \<Rightarrow> Inl JSONDecodeError | Some j \<Rightarrow> Inr j))"

subsection \<open>The retry decorator\<close>

text \<open>
  \<^verbatim>\<open>wait_exponential(multiplier, min, max)\<close> after the failed attempt number \<open>n\<close>
  (counted from 1), as tenacity computes it: \<open>multiplier * 2 ^ (n - 1)\<close>, cut off at the
  maximum and raised to the minimum.
\<close>

definition wait_exponential :: "real \<Rightarrow> real \<Rightarrow> real \<Rightarrow> nat \<Rightarrow> real" where
  "wait_exponential multiplier lo hi n =
     max (max 0 lo) (min (multiplier * 2 ^ (n - 1)) hi)"

text \<open>
  \<^verbatim>\<open>@retry(retry=..., stop=stop_after_attempt(3), wait=...)\<close> around \<open>body\<close>, at attempt
  number \<open>n\<close>: a result is returned; an exception outside \<open>retryable\<close> is raised as it
  is; a retryable one ends in \<open>RetryError\<close> at the third attempt, and otherwise the
  decorator sleeps and runs the whole body again.
\<close>

function retry_from ::
  "(exn \<Rightarrow> bool) \<Rightarrow> (nat \<Rightarrow> real) \<Rightarrow> (state \<Rightarrow> 'a result) \<Rightarrow> nat \<Rightarrow> state \<Rightarrow> 'a result"
where
  "retry_from retryable wait body n s =
     (case body s of
        (Inr v, s1) \<Rightarrow> (Inr v, s1)
      | (Inl e, s1) \<Rightarrow>
          if \<not> retryable e then (Inl e, s1)
          else if 3 \<le> n then (Inl (RetryError e), s1)
          else retry_from retryable wait body (Suc n) (sleep (wait n) s1))"
  by pat_completeness auto
termination
  by (relation "measure (\<lambda>(retryable, wait, body, n, s). 3 - n)") auto

declare retry_from.simps [simp del]

definition retry :: "(exn \<Rightarrow> bool) \<Rightarrow> (nat \<Rightarrow> real) \<Rightarrow> (state \<Rightarrow> 'a result) \<Rightarrow> state \<Rightarrow> 'a result" where
  "retry retryable wait body s = retry_from retryable wait body 1 s"

section \<open>Authentication\<close>

text \<open>\<^verbatim>\<open>APSToken.is_expired\<close>, read at clock value \<open>t\<close>.\<close>

definition is_expired :: "APSToken \<Rightarrow> real \<Rightarrow> bool" where
  "is_expired tok t \<longleftrightarrow> t \<ge> expires_at tok - 300"

text \<open>
  What \<^verbatim>\<open>authenticate\<close> does with the answer of the token endpoint, in the state it
  arrives in: \<^verbatim>\<open>raise_for_status\<close>, the parse, the expiry from the clock and
  \<^verbatim>\<open>expires_in\<close>, the token built from the body and stored in \<^verbatim>\<open>self._token\<close>.
\<close>

definition token_from :: "json option http_result \<Rightarrow> state \<Rightarrow> APSToken result" where
  "token_from r s1 =
     (case checked_json r of
        Inl x \<Rightarrow> (Inl x, s1)
      | Inr result \<Rightarrow>
         (case py_get result ''expires_in'' (JNum 3600) of
            Inl x \<Rightarrow> (Inl x, s1)
          | Inr ei \<Rightarrow>
             (case py_add (now s1) ei of
                Inl x \<Rightarrow> (Inl x, s1)
              | Inr ea \<Rightarrow>
                 (case py_getitem result ''access_token'' of
                    Inl x \<Rightarrow> (Inl x, s1)
                  | Inr atok \<Rightarrow>
                     (case py_get result ''token_type'' (JStr ''Bearer'') of
                        Inl x \<Rightarrow> (Inl x, s1)
                      | Inr tt \<Rightarrow>
                         (let tok = \<lparr>access_token = atok, expires_at = ea, token_type = tt\<rparr>
                          in (Inr tok, set_token tok s1)))))))"

text \<open>
  The part of \<^verbatim>\<open>authenticate\<close> below the cache test: one POST to the token endpoint,
  which takes its time, and the handling of the answer.
\<close>

definition exchange :: "env \<Rightarrow> state \<Rightarrow> APSToken result" where
  "exchange e s =
     (let (d, r) = token_post e (auth_posts s);
          s1 = s\<lparr>now := now s + d, auth_posts := Suc (auth_posts s)\<rparr>
      in token_from r s1)"

text \<open>The body of \<^verbatim>\<open>authenticate\<close>, without its decorator.\<close>

definition authenticate_body :: "env \<Rightarrow> state \<Rightarrow> APSToken result" where
  "authenticate_body e s =
     (case token (self s) of
        Some tok \<Rightarrow> if \<not> is_expired tok (now s) then (Inr tok, s) else exchange e s
      | None \<Rightarrow> exchange e s)"

text \<open>
  The decorator of \<^verbatim>\<open>authenticate\<close> retries on
  \<^verbatim>\<open>retry_if_exception_type((httpx.HTTPStatusError, httpx.RequestError))\<close>.
\<close>

definition auth_retryable :: "exn \<Rightarrow> bool" where
  "auth_retryable x \<longleftrightarrow> (case x of HTTPStatusError _ \<Rightarrow> True | RequestError \<Rightarrow> True | _ \<Rightarrow> False)"

text \<open>\<^verbatim>\<open>APSClient.authenticate\<close>, as callers see it.\<close>

definition authenticate :: "env \<Rightarrow> state \<Rightarrow> APSToken result" where
  "authenticate e = retry auth_retryable (wait_exponential 1 2 10) (authenticate_body e)"

section \<open>Submission and status\<close>

text \<open>
  \<^verbatim>\<open>create_workitem\<close>: a token, one POST, and the parsed body. The f-string printed
  before the return reads \<^verbatim>\<open>result['id']\<close>, which raises when there is no such key.
\<close>

definition create_workitem :: "env \<Rightarrow> string \<Rightarrow> json \<Rightarrow> state \<Rightarrow> json result" where
  "create_workitem e activity_id arguments s =
     (case authenticate e s of
        (Inl x, s1) \<Rightarrow> (Inl x, s1)
      | (Inr tok, s1) \<Rightarrow>
         (let workitem = JObj [(''activityId'', JStr activity_id), (''arguments'', arguments)];
              (d, r) = workitems_post e workitem (submit_posts s1);
              s2 = s1\<lparr>now := now s1 + d, submit_posts := Suc (submit_posts s1)\<rparr>
          in case checked_json r of
               Inl x \<Rightarrow> (Inl x, s2)
             | Inr result \<Rightarrow>
                (case py_getitem result ''id'' of
                   Inl x \<Rightarrow> (Inl x, s2)
                 | Inr _ \<Rightarrow> (Inr result, s2))))"

text \<open>The body of \<^verbatim>\<open>get_workitem_status\<close>, without its decorator.\<close>

definition get_workitem_status_body :: "env \<Rightarrow> json \<Rightarrow> state \<Rightarrow> json result" where
  "get_workitem_status_body e workitem_id s =
     (case authenticate e s of
        (Inl x, s1) \<Rightarrow> (Inl x, s1)
      | (Inr tok, s1) \<Rightarrow>
         (let (d, r) = workitem_get e workitem_id (status_gets s1);
              s2 = s1\<lparr>now := now s1 + d, status_gets := Suc (status_gets s1)\<rparr>
          in (checked_json r, s2)))"

text \<open>
  The decorator of \<^verbatim>\<open>get_workitem_status\<close> retries on
  \<^verbatim>\<open>retry_if_exception_type(httpx.RequestError)\<close>.
\<close>

definition status_retryable :: "exn \<Rightarrow> bool" where
  "status_retryable x \<longleftrightarrow> (case x of RequestError \<Rightarrow> True | _ \<Rightarrow> False)"

definition get_workitem_status :: "env \<Rightarrow> json \<Rightarrow> state \<Rightarrow> json result" where
  "get_workitem_status e workitem_id =
     retry status_retryable (wait_exponential 1 1 5) (get_workitem_status_body e workitem_id)"

section \<open>Polling\<close>

text \<open>
  The \<^verbatim>\<open>while\<close> loop of \<^verbatim>\<open>poll_workitem\<close>, entered at its test. Nothing bounds the number
  of rounds when the clock stands still, so the loop is a partial function: \<open>None\<close> is a
  call that never returns. \<^verbatim>\<open>last_status\<close> only decides what is printed and is left out.
\<close>

partial_function (option) poll_loop ::
  "env \<Rightarrow> json \<Rightarrow> real \<Rightarrow> real \<Rightarrow> real \<Rightarrow> state \<Rightarrow> json result option"
where
  "poll_loop e workitem_id start_time max_wait poll_interval s =
     (if now s - start_time < max_wait then
        (case get_workitem_status e workitem_id s of
           (Inl x, s1) \<Rightarrow> Some (Inl x, s1)
         | (Inr status, s1) \<Rightarrow>
            (case py_get status ''status'' JNull of
               Inl x \<Rightarrow> Some (Inl x, s1)
             | Inr current_status \<Rightarrow>
                 if current_status = JStr ''success'' then Some (Inr status, s1)
                 else if current_status = JStr ''failedInstructions'' then
                   (case py_get status ''reportUrl'' (JStr ''No report'') of
                      Inl x \<Rightarrow> Some (Inl x, s1)
                    | Inr report \<Rightarrow> Some (Inl (RuntimeError ''WorkItem failed: '' (Some report)), s1))
                 else if current_status = JStr ''cancelled'' then
                   Some (Inl (RuntimeError ''WorkItem was cancelled'' None), s1)
                 else poll_loop e workitem_id start_time max_wait poll_interval
                        (sleep poll_interval s1)))
      else Some (Inl (TimeoutError max_wait), s))"

text \<open>\<^verbatim>\<open>poll_workitem\<close>: the start time is read once, then the loop runs.\<close>

definition poll_workitem :: "env \<Rightarrow> json \<Rightarrow> real \<Rightarrow> real \<Rightarrow> state \<Rightarrow> json result option" where
  "poll_workitem e workitem_id max_wait poll_interval s =
     poll_loop e workitem_id (now s) max_wait poll_interval s"

section \<open>Transfers and the whole run\<close>

text \<open>
  \<^verbatim>\<open>download_file\<close>: one GET of a signed location. httpx takes a \<^verbatim>\<open>str\<close> for the URL
  and raises a TypeError for any other JSON value before it sends anything.
\<close>

definition download_file :: "env \<Rightarrow> json \<Rightarrow> state \<Rightarrow> bytes result" where
  "download_file e url s =
     (case url of
        JStr u \<Rightarrow>
         (let (d, r) = signed_get e u (download_gets s);
              s1 = s\<lparr>now := now s + d, download_gets := Suc (download_gets s)\<rparr>
          in case r of
               NetworkFailure \<Rightarrow> (Inl RequestError, s1)
             | Response code content \<Rightarrow>
                 if \<not> is_success code then (Inl (HTTPStatusError code), s1)
                 else (Inr content, s1\<lparr>downloaded := downloaded s1 + length content\<rparr>))
      | _ \<Rightarrow> (Inl TypeError, s))"

text \<open>
  The \<^verbatim>\<open>for\<close> loop at the end of \<^verbatim>\<open>create_workitem_and_wait\<close>, over the items of the
  final status's \<^verbatim>\<open>arguments\<close>, with the \<^verbatim>\<open>outputs\<close> dict built so far.
\<close>

fun fetch_outputs ::
  "env \<Rightarrow> (string \<times> json) list \<Rightarrow> (string \<times> bytes) list \<Rightarrow> state \<Rightarrow> (string \<times> bytes) list result"
where
  "fetch_outputs e [] outputs s = (Inr outputs, s)"
| "fetch_outputs e ((output_name, output_info) # rest) outputs s =
     (case output_info of
        JObj kvs \<Rightarrow>
         (case map_of kvs ''url'' of
            Some url \<Rightarrow>
             (case download_file e url s of
                (Inl x, s1) \<Rightarrow> (Inl x, s1)
              | (Inr content, s1) \<Rightarrow>
                  fetch_outputs e rest (AList.update output_name content outputs) s1)
          | None \<Rightarrow> fetch_outputs e rest outputs s)
      | _ \<Rightarrow> fetch_outputs e rest outputs s)"

text \<open>
  \<^verbatim>\<open>final_status.get("arguments", {}).items()\<close> and the loop over it: only a dict has
  \<^verbatim>\<open>items\<close>.
\<close>

definition fetch_all :: "env \<Rightarrow> json \<Rightarrow> state \<Rightarrow> (string \<times> bytes) list result" where
  "fetch_all e final_status s =
     (case py_get final_status ''arguments'' (JObj []) of
        Inl x \<Rightarrow> (Inl x, s)
      | Inr (JObj items) \<Rightarrow> fetch_outputs e items [] s
      | Inr _ \<Rightarrow> (Inl AttributeError, s))"

text \<open>
  \<^verbatim>\<open>create_workitem_and_wait\<close>: submit, poll with the default interval of 5 seconds,
  fetch the outputs.
\<close>

definition create_workitem_and_wait ::
  "env \<Rightarrow> string \<Rightarrow> json \<Rightarrow> real \<Rightarrow> state \<Rightarrow> (json \<times> (string \<times> bytes) list) result option"
where
  "create_workitem_and_wait e activity_id arguments max_wait s =
     (case create_workitem e activity_id arguments s of
        (Inl x, s1) \<Rightarrow> Some (Inl x, s1)
      | (Inr workitem, s1) \<Rightarrow>
         (case py_getitem workitem ''id'' of
            Inl x \<Rightarrow> Some (Inl x, s1)
          | Inr workitem_id \<Rightarrow>
             (case poll_workitem e workitem_id max_wait 5 s1 of
                None \<Rightarrow> None
              | Some (Inl x, s2) \<Rightarrow> Some (Inl x, s2)
              | Some (Inr final_status, s2) \<Rightarrow>
                 (case fetch_all e final_status s2 of
                    (Inl x, s3) \<Rightarrow> Some (Inl x, s3)
                  | (Inr outputs, s3) \<Rightarrow> Some (Inr (final_status, outputs), s3)))))"

section \<open>The module's singleton\<close>

text \<open>
  Client objects live in a store and are known by their reference; \<open>aps_client\<close> is the
  module variable \<^verbatim>\<open>_aps_client\<close>, \<open>None\<close> before the first call.
\<close>

record globals =
  heap :: "nat \<Rightarrow> APSClient"
  next_ref :: nat
  aps_client :: "nat option"

text \<open>\<^verbatim>\<open>_aps_client = APSClient(client_id, client_secret, region)\<close>\<close>

definition new_client :: "string \<Rightarrow> string \<Rightarrow> string \<Rightarrow> globals \<Rightarrow> nat \<times> globals" where
  "new_client cid secret reg g =
     (next_ref g,
      g\<lparr>heap := (heap g)(next_ref g := APSClient_init cid secret reg),
        next_ref := Suc (next_ref g),
        aps_client := Some (next_ref g)\<rparr>)"

definition get_aps_client :: "string \<Rightarrow> string \<Rightarrow> string \<Rightarrow> globals \<Rightarrow> nat \<times> globals" where
  "get_aps_client cid secret reg g =
     (case aps_client g of
        None \<Rightarrow> new_client cid secret reg g
      | Some r \<Rightarrow>
          if client_id (heap g r) \<noteq> cid then new_client cid secret reg g else (r, g))"

section \<open>Concurrent callers\<close>

text \<open>
  \<^verbatim>\<open>authenticate\<close> is a coroutine. On the event loop it runs without interruption between
  the points where it waits: for the answer to its POST, and for the end of the decorator's
  sleep. A call in progress is therefore in one of three places: \<open>Ready n\<close>, about to run
  the body for attempt \<open>n\<close>; \<open>Posted n k\<close>, in attempt \<open>n\<close>, waiting for the answer to the
  token request number \<open>k\<close>; \<open>Done\<close>, returned or raised. The cache test and the
  sending of the request are taken as one step; the test is the first thing the body does,
  so a wait between the two would not change what the test finds.
\<close>

datatype task = Ready nat | Posted nat nat | Done "exn + APSToken"

text \<open>
  The event loop resumes a call at clock value \<open>t\<close>, and the call runs to its next wait.
  From \<open>Ready\<close> that is the cache test and, on a miss, the sending of the request; from
  \<open>Posted\<close> it is the handling of the answer and the decorator's decision.
\<close>

definition resume :: "env \<Rightarrow> real \<Rightarrow> task \<Rightarrow> state \<Rightarrow> task \<times> state" where
  "resume e t tk s =
     (case tk of
        Ready n \<Rightarrow>
         (let s1 = s\<lparr>now := t\<rparr>;
              post = (Posted n (auth_posts s1), s1\<lparr>auth_posts := Suc (auth_posts s1)\<rparr>)
          in case token (self s1) of
               Some tok \<Rightarrow> if \<not> is_expired tok (now s1) then (Done (Inr tok), s1) else post
             | None \<Rightarrow> post)
      | Posted n k \<Rightarrow>
         (case token_from (snd (token_post e k)) (s\<lparr>now := t\<rparr>) of
            (Inr tok, s1) \<Rightarrow> (Done (Inr tok), s1)
          | (Inl x, s1) \<Rightarrow>
              if \<not> auth_retryable x then (Done (Inl x), s1)
              else if 3 \<le> n then (Done (Inl (RetryError x)), s1)
              else (Ready (Suc n), s1\<lparr>slept := wait_exponential 1 2 10 n # slept s1\<rparr>))
      | Done r \<Rightarrow> (Done r, s))"

text \<open>
  A schedule lists which call the event loop resumes next and at what time. All calls
  share the one client.
\<close>

fun run :: "env \<Rightarrow> (nat \<times> real) list \<Rightarrow> task list \<times> state \<Rightarrow> task list \<times> state" where
  "run e [] c = c"
| "run e ((i, t) # schedule) (tasks, s) =
     (if i < length tasks
      then (let (tk, s1) = resume e t (tasks ! i) s in run e schedule (tasks[i := tk], s1))
      else run e schedule (tasks, s))"

section \<open>Concrete worlds\<close>

text \<open>
  Small worlds to run the definitions in: a store with no client yet, a fresh client at
  clock 0, and remote sides that differ in what one endpoint answers.
\<close>

definition g0 :: globals where
  "g0 = \<lparr>heap = (\<lambda>_. APSClient_init [] [] []), next_ref = 0, aps_client = None\<rparr>"

definition s0 :: state where
  "s0 = \<lparr>self = APSClient_init ''id'' ''secret'' ''us-east'', now = 0, auth_posts = 0,
          submit_posts = 0, status_gets = 0, download_gets = 0, downloaded = 0, slept = []\<rparr>"

definition tok0 :: APSToken where
  "tok0 = \<lparr>access_token = JStr ''tk'', expires_at = 3601, token_type = JStr ''Bearer''\<rparr>"

text \<open>A remote side where nothing answers.\<close>

definition env_down :: env where
  "env_down = \<lparr>token_post = (\<lambda>n. (0, NetworkFailure)),
               workitems_post = (\<lambda>w n. (0, NetworkFailure)),
               workitem_get = (\<lambda>i n. (0, NetworkFailure)),
               signed_get = (\<lambda>u n. (0, NetworkFailure))\<rparr>"

text \<open>The token endpoint answers every call within a second, with all three fields.\<close>

definition env_auth :: env where
  "env_auth = env_down\<lparr>token_post := (\<lambda>n. (1, Response 200 (Some (JObj
       [(''access_token'', JStr ''tk''), (''expires_in'', JNum 3600),
        (''token_type'', JStr ''Bearer'')]))))\<rparr>"








text \<open>The fresh client one second later, holding the token of a first exchange.\<close>

definition s_tok :: state where
  "s_tok = set_token tok0 (s0\<lparr>now := 1, auth_posts := 1\<rparr>)"

text \<open>
  A job that runs to the end: submission is accepted as \<^verbatim>\<open>job-1\<close>, the status is
  \<^verbatim>\<open>pending\<close>, then \<^verbatim>\<open>inprogress\<close>, then \<^verbatim>\<open>success\<close> with one output location, and
  every signed location holds three bytes.
\<close>

definition env_job :: env where
  "env_job = env_auth\<lparr>
     workitems_post := (\<lambda>w n. (1, Response 200 (Some (JObj
        [(''id'', JStr ''job-1''), (''status'', JStr ''pending'')])))),
     workitem_get := (\<lambda>i n. (1, Response 200 (Some (JObj
        (if n = 0 then [(''id'', i), (''status'', JStr ''pending'')]
         else if n = 1 then [(''id'', i), (''status'', JStr ''inprogress'')]
         else [(''id'', i), (''status'', JStr ''success''),
               (''arguments'', JObj [(''out'', JObj [(''url'', JStr ''https://x/out'')])])]))))),
     signed_get := (\<lambda>u n. (1, Response 200 [1, 2, 3]))\<rparr>"

text \<open>A job whose status is \<^verbatim>\<open>pending\<close> once and \<^verbatim>\<open>failedInstructions\<close> afterwards.\<close>

definition env_failed :: env where
  "env_failed = env_auth\<lparr>
     workitem_get := (\<lambda>i n. (1, Response 200 (Some (JObj
        (if n = 0 then [(''id'', i), (''status'', JStr ''pending'')]
         else [(''id'', i), (''status'', JStr ''failedInstructions''),
               (''reportUrl'', JStr ''https://x/report'')])))))\<rparr>"

text \<open>A job whose status is always \<^verbatim>\<open>failedinstructions\<close>, in lower case.\<close>

definition env_failed_lower :: env where
  "env_failed_lower = env_auth\<lparr>
     workitem_get := (\<lambda>i n. (1, Response 200 (Some (JObj
        [(''id'', i), (''status'', JStr ''failedinstructions''),
         (''reportUrl'', JStr ''https://x/report'')]))))\<rparr>"

text \<open>A job whose status is always \<^verbatim>\<open>inprogress\<close>.\<close>

definition env_inprogress :: env where
  "env_inprogress = env_auth\<lparr>
     workitem_get := (\<lambda>i n. (1, Response 200 (Some (JObj
        [(''id'', i), (''status'', JStr ''inprogress'')]))))\<rparr>"

text \<open>
  A job that succeeds at the first poll with the location of one of its two outputs
  resolved; every signed location holds three bytes.
\<close>

definition env_partial :: env where
  "env_partial = env_auth\<lparr>
     workitems_post := (\<lambda>w n. (1, Response 200 (Some (JObj
        [(''id'', JStr ''job-1''), (''status'', JStr ''pending'')])))),
     workitem_get := (\<lambda>i n. (1, Response 200 (Some (JObj
        [(''id'', i), (''status'', JStr ''success''),
         (''arguments'', JObj [(''outputFamily'', JObj [(''url'', JStr ''https://x/rfa'')]),
                               (''outputManifest'', JObj [(''verb'', JStr ''put'')])])])))),
     signed_get := (\<lambda>u n. (1, Response 200 [1, 2, 3]))\<rparr>"


section \<open>Auxiliary predicates\<close>

text \<open>
  The cache test of \<^verbatim>\<open>authenticate\<close> fails: there is no token, or the one there is
  expired.
\<close>

definition cache_miss :: "state \<Rightarrow> bool" where
  "cache_miss s \<longleftrightarrow> (case token (self s) of None \<Rightarrow> True | Some tok \<Rightarrow> is_expired tok (now s))"


text \<open>A polled status that matches none of the three strings the loop stops at.\<close>

definition still_running :: "json \<Rightarrow> bool" where
  "still_running current_status \<longleftrightarrow>
     current_status \<noteq> JStr ''success'' \<and> current_status \<noteq> JStr ''failedInstructions'' \<and>
     current_status \<noteq> JStr ''cancelled''"

text \<open>
  A round of the polling loop that goes on to the sleep: the deadline test passes, the
  status query returns a dict, and its status stops nothing.
\<close>

definition poll_continues :: "env \<Rightarrow> json \<Rightarrow> real \<Rightarrow> real \<Rightarrow> state \<Rightarrow> bool" where
  "poll_continues e workitem_id start_time max_wait s \<longleftrightarrow>
     now s - start_time < max_wait \<and>
     (case get_workitem_status e workitem_id s of
        (Inl x, s1) \<Rightarrow> False
      | (Inr status, s1) \<Rightarrow>
         (case py_get status ''status'' JNull of
            Inl x \<Rightarrow> False
          | Inr current_status \<Rightarrow> still_running current_status))"

text \<open>The state after \<open>k\<close> rounds of polling and sleeping.\<close>

fun after_rounds :: "env \<Rightarrow> json \<Rightarrow> real \<Rightarrow> nat \<Rightarrow> state \<Rightarrow> state" where
  "after_rounds e workitem_id poll_interval 0 s = s"
| "after_rounds e workitem_id poll_interval (Suc k) s =
     after_rounds e workitem_id poll_interval k
       (sleep poll_interval (snd (get_workitem_status e workitem_id s)))"

text \<open>
  The test of the fetch loop on one item of \<^verbatim>\<open>arguments\<close>:
  \<^verbatim>\<open>isinstance(output_info, dict) and "url" in output_info\<close>.
\<close>

definition has_url :: "string \<times> json \<Rightarrow> bool" where
  "has_url item \<longleftrightarrow>
     (case snd item of JObj kvs \<Rightarrow> map_of kvs ''url'' \<noteq> None | _ \<Rightarrow> False)"

section \<open>Properties of the singleton\<close>

text \<open>
  Claim C9. Two calls of \<^verbatim>\<open>get_aps_client\<close> with the same client id, one after the
  other: the second returns the reference the first returned and changes nothing, whatever
  secret and region it is given. When the first call had to create the client (no client
  yet, or one with another id), the object behind that reference is the one built from
  the first call's secret and region; otherwise the first call created nothing either
  and returned the client that was there.
\<close>

theorem get_aps_client_same_id:
  assumes first: "get_aps_client cid s1 r1 g = (a1, g1)"
      and second: "get_aps_client cid s2 r2 g1 = (a2, g2)"
  shows "a2 = a1 \<and> g2 = g1 \<and>
         (if (case aps_client g of None \<Rightarrow> True | Some r \<Rightarrow> client_id (heap g r) \<noteq> cid)
          then a1 = next_ref g \<and> next_ref g1 = Suc (next_ref g) \<and>
               heap g2 a2 = APSClient_init cid s1 r1
          else g1 = g \<and> aps_client g = Some a1)"
  using first second
  by (auto simp: get_aps_client_def new_client_def APSClient_init_def split: option.splits if_splits)

theorem get_aps_client_same_id_witness:
  "get_aps_client ''id'' ''s1'' ''us-east'' g0 = (0, snd (get_aps_client ''id'' ''s1'' ''us-east'' g0)) \<and>
   get_aps_client ''id'' ''s2'' ''eu-west'' (snd (get_aps_client ''id'' ''s1'' ''us-east'' g0))
     = (0, snd (get_aps_client ''id'' ''s1'' ''us-east'' g0)) \<and>
   client_secret (heap (snd (get_aps_client ''id'' ''s1'' ''us-east'' g0)) 0) = ''s1'' \<and>
   region (heap (snd (get_aps_client ''id'' ''s1'' ''us-east'' g0)) 0) = ''us-east'' \<and>
   get_aps_client ''id'' ''s3'' ''emea'' (snd (get_aps_client ''id'' ''s1'' ''us-east'' g0))
     = (0, snd (get_aps_client ''id'' ''s1'' ''us-east'' g0))"
proof -
  let ?g1 = "snd (get_aps_client ''id'' ''s1'' ''us-east'' g0)"
  have a: "get_aps_client ''id'' ''s1'' ''us-east'' g0 = (0, ?g1)"
    by (simp add: g0_def get_aps_client_def new_client_def)
  have b: "get_aps_client ''id'' ''s2'' ''eu-west'' ?g1 = (0, ?g1)"
    by (simp add: g0_def get_aps_client_def new_client_def APSClient_init_def)
  have c: "get_aps_client ''id'' ''s3'' ''emea'' ?g1 = (0, ?g1)"
    by (simp add: g0_def get_aps_client_def new_client_def APSClient_init_def)
  from get_aps_client_same_id [OF a b] get_aps_client_same_id [OF b c] show ?thesis
    using a b c by (simp add: g0_def APSClient_init_def)
qed

section \<open>Properties of the retry decorator\<close>

lemma retry_from_ok: "body s = (Inr v, s1) \<Longrightarrow> retry_from p w body n s = (Inr v, s1)"
  by (subst retry_from.simps) simp

lemma retry_from_fatal:
  "body s = (Inl x, s1) \<Longrightarrow> \<not> p x \<Longrightarrow> retry_from p w body n s = (Inl x, s1)"
  by (subst retry_from.simps) simp



section \<open>Properties of authentication\<close>

lemma authenticate_body_miss: "cache_miss s \<Longrightarrow> authenticate_body e s = exchange e s"
  by (simp add: cache_miss_def authenticate_body_def split: option.splits)

lemma authenticate_cached:
  "token (self s) = Some tok \<Longrightarrow> \<not> is_expired tok (now s) \<Longrightarrow> authenticate e s = (Inr tok, s)"
  by (simp add: authenticate_def retry_def authenticate_body_def retry_from_ok)






lemma exchange_2xx_error_fatal:
  "token_post e (auth_posts s) = (d, Response code body) \<Longrightarrow> is_success code \<Longrightarrow>
   exchange e s = (Inl x, s1) \<Longrightarrow> \<not> auth_retryable x"
  by (auto simp: exchange_def token_from_def checked_json_def py_get_def py_getitem_def py_add_def auth_retryable_def Let_def
       split: sum.splits option.splits json.splits)






lemma authenticate_first_2xx:
  assumes "cache_miss s" and "token_post e (auth_posts s) = (d, Response code body)" and "is_success code"
  shows "authenticate e s = exchange e s"
proof (cases "exchange e s")
  case (Pair r s1)
  show ?thesis
  proof (cases r)
    case (Inl x)
    with Pair exchange_2xx_error_fatal [OF assms(2,3)] have "\<not> auth_retryable x" by simp
    with Pair Inl assms(1) show ?thesis
      by (simp add: authenticate_def retry_def retry_from_fatal authenticate_body_miss)
  next
    case (Inr v)
    with Pair assms(1) show ?thesis
      by (simp add: authenticate_def retry_def retry_from_ok authenticate_body_miss)
  qed
qed











section \<open>Properties of the retry sites\<close>

lemma authenticate_fresh:
  "token (self s) = Some tok \<Longrightarrow> now s < expires_at tok - 300 \<Longrightarrow> authenticate e s = (Inr tok, s)"
  by (rule authenticate_cached) (simp_all add: is_expired_def)


lemma checked_json_retryable:
  "checked_json r = Inl x \<Longrightarrow> status_retryable x \<longleftrightarrow> r = NetworkFailure"
  by (auto simp: checked_json_def status_retryable_def split: http_result.splits if_splits option.splits)

lemma retry_from_settled:
  assumes "body s = (r, s1)" and "\<And>x. r = Inl x \<Longrightarrow> \<not> p x"
  shows "retry_from p w body n s = (r, s1)"
  using assms by (cases r) (simp_all add: retry_from_fatal retry_from_ok)









lemma s_tok_fresh: "token (self s_tok) = Some tok0 \<and> now s_tok = 1 \<and> expires_at tok0 = 3601 \<and>
    status_gets s_tok = 0 \<and> submit_posts s_tok = 0 \<and> slept s_tok = []"
  by (simp add: s_tok_def set_token_def s0_def tok0_def)



section \<open>Properties of polling\<close>

lemma poll_loop_timeout:
  "\<not> now s - start < mw \<Longrightarrow> poll_loop e wid start mw p s = Some (Inl (TimeoutError mw), s)"
  by (subst poll_loop.simps) simp

lemma poll_loop_error:
  "now s - start < mw \<Longrightarrow> get_workitem_status e wid s = (Inl x, s1) \<Longrightarrow>
   poll_loop e wid start mw p s = Some (Inl x, s1)"
  by (subst poll_loop.simps) simp

lemma poll_loop_success:
  "now s - start < mw \<Longrightarrow> get_workitem_status e wid s = (Inr status, s1) \<Longrightarrow>
   py_get status ''status'' JNull = Inr (JStr ''success'') \<Longrightarrow>
   poll_loop e wid start mw p s = Some (Inr status, s1)"
  by (subst poll_loop.simps) simp

lemma poll_loop_failed:
  "now s - start < mw \<Longrightarrow> get_workitem_status e wid s = (Inr status, s1) \<Longrightarrow>
   py_get status ''status'' JNull = Inr (JStr ''failedInstructions'') \<Longrightarrow>
   py_get status ''reportUrl'' (JStr ''No report'') = Inr report \<Longrightarrow>
   poll_loop e wid start mw p s = Some (Inl (RuntimeError ''WorkItem failed: '' (Some report)), s1)"
  by (subst poll_loop.simps) simp

lemma poll_loop_continue:
  assumes "poll_continues e wid start mw s"
  shows "poll_loop e wid start mw p s =
           poll_loop e wid start mw p (sleep p (snd (get_workitem_status e wid s)))"
proof -
  obtain r s1 where q: "get_workitem_status e wid s = (r, s1)"
    by (cases "get_workitem_status e wid s")
  from assms q obtain status cur where r: "r = Inr status"
    and c: "py_get status ''status'' JNull = Inr cur" and n: "still_running cur"
    and t: "now s - start < mw"
    by (auto simp: poll_continues_def split: sum.splits)
  from n have "cur \<noteq> JStr ''success''" "cur \<noteq> JStr ''failedInstructions''"
    "cur \<noteq> JStr ''cancelled''"
    by (simp_all add: still_running_def)
  with t q r c show ?thesis
    by (subst poll_loop.simps) simp
qed

lemma poll_loop_rounds:
  "\<forall>i<k. poll_continues e wid start mw (after_rounds e wid p i s) \<Longrightarrow>
   poll_loop e wid start mw p s = poll_loop e wid start mw p (after_rounds e wid p k s)"
proof (induction k arbitrary: s)
  case 0
  show ?case by simp
next
  case (Suc k)
  let ?s2 = "sleep p (snd (get_workitem_status e wid s))"
  from Suc.prems have "poll_continues e wid start mw (after_rounds e wid p 0 s)" by blast
  then have first: "poll_loop e wid start mw p s = poll_loop e wid start mw p ?s2"
    by (simp add: poll_loop_continue)
  have "\<forall>i<k. poll_continues e wid start mw (after_rounds e wid p i ?s2)"
  proof (intro allI impI)
    fix i assume "i < k"
    then have "Suc i < Suc k" by simp
    with Suc.prems have "poll_continues e wid start mw (after_rounds e wid p (Suc i) s)" by blast
    then show "poll_continues e wid start mw (after_rounds e wid p i ?s2)" by simp
  qed
  from Suc.IH [OF this] first show ?case by simp
qed

text \<open>
  Claim C4. Let the first \<open>k\<close> rounds of \<^verbatim>\<open>poll_workitem\<close> each poll a status that keeps
  the loop running, and let the next round be entered before the deadline and its poll
  report \<^verbatim>\<open>"success"\<close>. Then the call returns the status of that poll, and the state it
  ends in is the state right after that poll: no status query and no sleep comes after it.
  With \<open>k = 0\<close> this is a success at the very first poll.
\<close>

theorem poll_returns_first_success:
  assumes before: "\<forall>i<k. poll_continues e wid (now s) mw (after_rounds e wid p i s)"
      and intime: "now (after_rounds e wid p k s) - now s < mw"
      and poll: "get_workitem_status e wid (after_rounds e wid p k s) = (Inr status, s')"
      and success: "py_get status ''status'' JNull = Inr (JStr ''success'')"
  shows "poll_workitem e wid mw p s = Some (Inr status, s')"
  unfolding poll_workitem_def
  using poll_loop_rounds [OF before] poll_loop_success [OF intime poll success] by simp

text \<open>
  Claim C5, as the code has it. Let the first \<open>k\<close> rounds each poll a status that keeps
  the loop running, and let the next round be entered before the deadline and its poll
  report \<^verbatim>\<open>"failedInstructions"\<close>, in the spelling the code compares with. Then the call
  raises a RuntimeError that carries the \<^verbatim>\<open>reportUrl\<close> of that status (\<^verbatim>\<open>'No report'\<close>
  when there is none), and ends in the state right after that poll: no status query and no
  sleep comes after it.
\<close>

theorem poll_raises_first_failure:
  assumes before: "\<forall>i<k. poll_continues e wid (now s) mw (after_rounds e wid p i s)"
      and intime: "now (after_rounds e wid p k s) - now s < mw"
      and poll: "get_workitem_status e wid (after_rounds e wid p k s) = (Inr (JObj kvs), s')"
      and failed: "map_of kvs ''status'' = Some (JStr ''failedInstructions'')"
  shows "poll_workitem e wid mw p s =
           Some (Inl (RuntimeError ''WorkItem failed: ''
                   (Some (case map_of kvs ''reportUrl'' of None \<Rightarrow> JStr ''No report'' | Some u \<Rightarrow> u))), s')"
proof -
  have st: "py_get (JObj kvs) ''status'' JNull = Inr (JStr ''failedInstructions'')"
    using failed by (simp add: py_get_def)
  have rp: "py_get (JObj kvs) ''reportUrl'' (JStr ''No report'') =
      Inr (case map_of kvs ''reportUrl'' of None \<Rightarrow> JStr ''No report'' | Some u \<Rightarrow> u)"
    by (simp add: py_get_def split: option.splits)
  show ?thesis
    unfolding poll_workitem_def
    using poll_loop_rounds [OF before] poll_loop_failed [OF intime poll st rp] by simp
qed

lemma authenticate_hit:
  "\<not> cache_miss s \<Longrightarrow> authenticate e s = (Inr (the (token (self s))), s)"
  by (auto simp: cache_miss_def authenticate_cached split: option.splits)

lemma status_hit:
  assumes "\<not> cache_miss s" and "snd (workitem_get e wid (status_gets s)) \<noteq> NetworkFailure"
  shows "get_workitem_status e wid s =
           (checked_json (snd (workitem_get e wid (status_gets s))),
            s\<lparr>now := now s + fst (workitem_get e wid (status_gets s)),
              status_gets := Suc (status_gets s)\<rparr>)"
proof -
  have "get_workitem_status_body e wid s =
           (checked_json (snd (workitem_get e wid (status_gets s))),
            s\<lparr>now := now s + fst (workitem_get e wid (status_gets s)),
              status_gets := Suc (status_gets s)\<rparr>)"
    using assms(1)
    by (simp add: get_workitem_status_body_def authenticate_hit split: prod.splits)
  then show ?thesis
    unfolding get_workitem_status_def retry_def
    by (rule retry_from_settled) (use assms(2) checked_json_retryable in blast)
qed

lemmas world_defs = s_tok_def s0_def tok0_def set_token_def sleep_def cache_miss_def
  is_expired_def APSClient_init_def checked_json_def is_success_def py_get_def

lemma sleep_s_tok:
  "sleep d (s_tok\<lparr>now := t, status_gets := n\<rparr>) =
     s_tok\<lparr>now := t + max 0 d, status_gets := n, slept := [d]\<rparr>"
  "sleep d (s_tok\<lparr>now := t, status_gets := n, slept := l\<rparr>) =
     s_tok\<lparr>now := t + max 0 d, status_gets := n, slept := d # l\<rparr>"
  by (simp_all add: s_tok_def s0_def set_token_def sleep_def)

theorem poll_returns_first_success_witness:
  "poll_workitem env_job (JStr ''job-1'') 600 5 s_tok =
     Some (Inr (JObj [(''id'', JStr ''job-1''), (''status'', JStr ''success''),
                      (''arguments'', JObj [(''out'', JObj [(''url'', JStr ''https://x/out'')])])]),
           s_tok\<lparr>now := 14, status_gets := 3, slept := [5, 5]\<rparr>)"
proof -
  let ?w = "JStr ''job-1''"
  let ?s1 = "s_tok\<lparr>now := 7, status_gets := Suc 0, slept := [5]\<rparr>"
  let ?s2 = "s_tok\<lparr>now := 13, status_gets := Suc (Suc 0), slept := [5, 5]\<rparr>"
  have q0: "get_workitem_status env_job ?w s_tok =
      (Inr (JObj [(''id'', ?w), (''status'', JStr ''pending'')]), s_tok\<lparr>now := 2, status_gets := Suc 0\<rparr>)"
    by (subst status_hit) (simp_all add: env_job_def world_defs)
  have q1: "get_workitem_status env_job ?w ?s1 =
      (Inr (JObj [(''id'', ?w), (''status'', JStr ''inprogress'')]), s_tok\<lparr>now := 8, status_gets := Suc (Suc 0), slept := [5]\<rparr>)"
    by (subst status_hit) (simp_all add: env_job_def world_defs)
  have q2: "get_workitem_status env_job ?w ?s2 =
      (Inr (JObj [(''id'', ?w), (''status'', JStr ''success''),
                      (''arguments'', JObj [(''out'', JObj [(''url'', JStr ''https://x/out'')])])]),
       s_tok\<lparr>now := 14, status_gets := Suc (Suc (Suc 0)), slept := [5, 5]\<rparr>)"
    by (subst status_hit) (simp_all add: env_job_def world_defs)
  have r1: "after_rounds env_job ?w 5 1 s_tok = ?s1"
    by (simp add: q0 sleep_s_tok)
  have r2: "after_rounds env_job ?w 5 2 s_tok = ?s2"
    by (simp add: numeral_2_eq_2 q0 q1 sleep_s_tok)
  have c: "\<forall>i<2. poll_continues env_job ?w (now s_tok) 600 (after_rounds env_job ?w 5 i s_tok)"
  proof (intro allI impI)
    fix i :: nat assume "i < 2"
    then have "i = 0 \<or> i = 1" by auto
    then show "poll_continues env_job ?w (now s_tok) 600 (after_rounds env_job ?w 5 i s_tok)"
      using r1 q0 q1
      by (auto simp: poll_continues_def still_running_def py_get_def) (simp_all add: world_defs)
  qed
  have t: "now (after_rounds env_job ?w 5 2 s_tok) - now s_tok < 600"
    by (simp only: r2) (simp add: world_defs)
  have "poll_workitem env_job ?w 600 5 s_tok =
     Some (Inr (JObj [(''id'', JStr ''job-1''), (''status'', JStr ''success''),
                      (''arguments'', JObj [(''out'', JObj [(''url'', JStr ''https://x/out'')])])]),
           s_tok\<lparr>now := 14, status_gets := Suc (Suc (Suc 0)), slept := [5, 5]\<rparr>)"
    by (rule poll_returns_first_success [OF c t, unfolded r2, OF q2]) (simp add: py_get_def)
  then show ?thesis by (simp add: numeral_3_eq_3)
qed

lemma poll_loop_deadline:
  assumes p: "0 < p"
      and step: "\<And>s. I s \<Longrightarrow> now s - start < mw \<Longrightarrow>
                   poll_continues e wid start mw s \<and>
                   now (snd (get_workitem_status e wid s)) \<le> now s + D \<and>
                   now s \<le> now (snd (get_workitem_status e wid s)) \<and>
                   I (sleep p (snd (get_workitem_status e wid s)))"
  shows "I s \<Longrightarrow> mw - (now s - start) \<le> real n * p \<Longrightarrow>
         \<exists>s'. poll_loop e wid start mw p s = Some (Inl (TimeoutError mw), s') \<and> I s' \<and>
              mw \<le> now s' - start \<and> (s' = s \<or> now s' - start < mw + D + p)"
proof (induction n arbitrary: s)
  case 0
  then have "\<not> now s - start < mw" by simp
  then show ?case using "0.prems"(1) by (auto simp: poll_loop_timeout)
next
  case (Suc n)
  show ?case
  proof (cases "now s - start < mw")
    case False
    then show ?thesis using Suc.prems(1) by (auto simp: poll_loop_timeout)
  next
    case True
    let ?s1 = "snd (get_workitem_status e wid s)"
    let ?s2 = "sleep p ?s1"
    from step [OF Suc.prems(1) True]
    have c: "poll_continues e wid start mw s" and up: "now ?s1 \<le> now s + D"
      and lo: "now s \<le> now ?s1" and i2: "I ?s2" by simp_all
    have n2: "now ?s2 = now ?s1 + p" using p by (simp add: sleep_def)
    have "real (Suc n) * p = real n * p + p" by (simp add: algebra_simps)
    with Suc.prems(2) lo n2 have "mw - (now ?s2 - start) \<le> real n * p" by simp
    from Suc.IH [OF i2 this] obtain s' where
      r: "poll_loop e wid start mw p ?s2 = Some (Inl (TimeoutError mw), s')" and "I s'"
      and "mw \<le> now s' - start" and d: "s' = ?s2 \<or> now s' - start < mw + D + p"
      by blast
    moreover have "now s' - start < mw + D + p"
      using d n2 up True by auto
    moreover have "poll_loop e wid start mw p s = poll_loop e wid start mw p ?s2"
      by (rule poll_loop_continue [OF c])
    ultimately show ?thesis by auto
  qed
qed

text \<open>
  Claim C6, as the code has it. Let the poll interval be positive, and let every poll made
  before the deadline answer \<^verbatim>\<open>"inprogress"\<close> within \<open>D\<close> seconds; \<open>I\<close> is whatever is known
  of the states the loop passes through (that the cached token is fresh, say), true at the
  start and again after each sleep. Then \<^verbatim>\<open>poll_workitem\<close> returns, with a TimeoutError,
  at a moment when at least \<^verbatim>\<open>max_wait\<close> seconds have passed; it has run for less than
  \<^verbatim>\<open>max_wait\<close> (or 0 if that is negative) plus one poll round-trip plus one poll interval,
  since the deadline is tested only at the head of the loop, after the sleep. It is the
  clock alone that ends the loop: no count of attempts appears.
\<close>

theorem poll_times_out:
  assumes p: "0 < p" and D: "0 \<le> D"
      and start: "I s"
      and polls: "\<And>t. I t \<Longrightarrow> now t - now s < mw \<Longrightarrow>
                    \<exists>status s1. get_workitem_status e wid t = (Inr status, s1) \<and>
                       py_get status ''status'' JNull = Inr (JStr ''inprogress'') \<and>
                       now t \<le> now s1 \<and> now s1 \<le> now t + D \<and> I (sleep p s1)"
  shows "\<exists>s'. poll_workitem e wid mw p s = Some (Inl (TimeoutError mw), s') \<and>
              mw \<le> now s' - now s \<and> now s' - now s < max 0 mw + D + p"
proof -
  have step: "poll_continues e wid (now s) mw t \<and>
                   now (snd (get_workitem_status e wid t)) \<le> now t + D \<and>
                   now t \<le> now (snd (get_workitem_status e wid t)) \<and>
                   I (sleep p (snd (get_workitem_status e wid t)))"
    if "I t" and "now t - now s < mw" for t
  proof -
    from polls [OF that] obtain status s1 where
      q: "get_workitem_status e wid t = (Inr status, s1)"
      and st: "py_get status ''status'' JNull = Inr (JStr ''inprogress'')"
      and d: "now t \<le> now s1" "now s1 \<le> now t + D" and i: "I (sleep p s1)"
      by blast
    show ?thesis
      using that(2) q st d i by (simp add: poll_continues_def still_running_def)
  qed
  obtain n where "mw < real n * p" using p ex_less_of_nat_mult by blast
  then have n: "mw - (now s - now s) \<le> real n * p" by simp
  from poll_loop_deadline [of p I "now s" mw e wid D, OF p step start n]
  obtain s' where r: "poll_loop e wid (now s) mw p s = Some (Inl (TimeoutError mw), s')"
    and lo: "mw \<le> now s' - now s"
    and hi: "s' = s \<or> now s' - now s < mw + D + p"
    by blast
  from hi p D have "now s' - now s < max 0 mw + D + p" by auto
  with r lo show ?thesis by (auto simp: poll_workitem_def)
qed

lemma s_tok_hit:
  "t < 3301 \<Longrightarrow> \<not> cache_miss (s_tok\<lparr>now := t, status_gets := n\<rparr>)"
  "t < 3301 \<Longrightarrow> \<not> cache_miss (s_tok\<lparr>now := t, status_gets := n, slept := l\<rparr>)"
  "\<not> cache_miss s_tok"
  by (simp_all add: world_defs)

lemma s_tok_fields:
  "now s_tok = 1" "status_gets s_tok = 0" "slept s_tok = []"
  by (simp_all add: s_tok_fresh)

lemma two_rounds_then_timeout:
  assumes g: "\<And>n. workitem_get e wid n = (1, Response 200 (Some (JObj kvs)))"
      and c: "map_of kvs ''status'' = Some c" "still_running c"
  shows "poll_workitem e wid 10 5 s_tok =
           Some (Inl (TimeoutError 10), s_tok\<lparr>now := 13, status_gets := 2, slept := [5, 5]\<rparr>)"
proof -
  let ?s1 = "s_tok\<lparr>now := 7, status_gets := Suc 0, slept := [5]\<rparr>"
  let ?s2 = "s_tok\<lparr>now := 13, status_gets := Suc (Suc 0), slept := [5, 5]\<rparr>"
  have cj: "checked_json (Response 200 (Some (JObj kvs))) = Inr (JObj kvs)"
    by (simp add: checked_json_def is_success_def)
  have q0: "get_workitem_status e wid s_tok =
      (Inr (JObj kvs), s_tok\<lparr>now := 2, status_gets := Suc 0\<rparr>)"
    by (subst status_hit) (simp_all add: g cj s_tok_hit s_tok_fields)
  have q1: "get_workitem_status e wid ?s1 =
      (Inr (JObj kvs), s_tok\<lparr>now := 8, status_gets := Suc (Suc 0), slept := [5]\<rparr>)"
    by (subst status_hit) (simp_all add: g cj s_tok_hit)
  have r1: "after_rounds e wid 5 1 s_tok = ?s1"
    by (simp add: q0 sleep_s_tok)
  have r2: "after_rounds e wid 5 2 s_tok = ?s2"
    by (simp add: numeral_2_eq_2 q0 q1 sleep_s_tok)
  have k: "\<forall>i<2. poll_continues e wid (now s_tok) 10 (after_rounds e wid 5 i s_tok)"
  proof (intro allI impI)
    fix i :: nat assume "i < 2"
    then have "i = 0 \<or> i = 1" by auto
    then show "poll_continues e wid (now s_tok) 10 (after_rounds e wid 5 i s_tok)"
      using r1 q0 q1 c
      by (auto simp: poll_continues_def py_get_def s_tok_fields)
  qed
  have "poll_workitem e wid 10 5 s_tok = poll_loop e wid (now s_tok) 10 5 ?s2"
    unfolding poll_workitem_def using poll_loop_rounds [OF k] by (simp only: r2)
  also have "\<dots> = Some (Inl (TimeoutError 10), ?s2)"
    by (rule poll_loop_timeout) (simp add: s_tok_fields)
  finally show ?thesis by (simp add: numeral_2_eq_2)
qed

text \<open>
  Claim C5 as stated fails: with the status spelled \<^verbatim>\<open>"failedinstructions"\<close> the loop
  does not stop at the first poll. It sleeps, polls a second time and sleeps again, and the
  call ends in a TimeoutError at the deadline.
\<close>

theorem lowercase_failure_polled_on:
  "poll_workitem env_failed_lower (JStr ''job-1'') 10 5 s_tok =
     Some (Inl (TimeoutError 10), s_tok\<lparr>now := 13, status_gets := 2, slept := [5, 5]\<rparr>)"
  by (rule two_rounds_then_timeout [where c = "JStr ''failedinstructions''" and
        kvs = "[(''id'', JStr ''job-1''), (''status'', JStr ''failedinstructions''),
                (''reportUrl'', JStr ''https://x/report'')]"])
     (simp_all add: env_failed_lower_def still_running_def)

text \<open>
  Claim C6 as stated fails: with \<^verbatim>\<open>max_wait\<close> = 10, a poll interval of 5 and polls that
  take 1 second each, the call runs for 12 seconds, more than \<^verbatim>\<open>max_wait\<close> plus one poll
  round-trip.
\<close>

theorem timeout_overshoots_round_trip:
  "fst (workitem_get env_inprogress (JStr ''job-1'') 0) = 1 \<and>
   fst (workitem_get env_inprogress (JStr ''job-1'') 1) = 1 \<and>
   poll_workitem env_inprogress (JStr ''job-1'') 10 5 s_tok =
     Some (Inl (TimeoutError 10), s_tok\<lparr>now := 13, status_gets := 2, slept := [5, 5]\<rparr>) \<and>
   now (s_tok\<lparr>now := 13, status_gets := 2, slept := [5, 5]\<rparr>) - now s_tok > 10 + 1"
proof -
  have "poll_workitem env_inprogress (JStr ''job-1'') 10 5 s_tok =
     Some (Inl (TimeoutError 10), s_tok\<lparr>now := 13, status_gets := 2, slept := [5, 5]\<rparr>)"
    by (rule two_rounds_then_timeout [where c = "JStr ''inprogress''" and
          kvs = "[(''id'', JStr ''job-1''), (''status'', JStr ''inprogress'')]"])
       (simp_all add: env_inprogress_def still_running_def)
  then show ?thesis by (simp add: env_inprogress_def s_tok_fields)
qed

theorem poll_times_out_witness:
  "\<exists>s'. poll_workitem env_inprogress (JStr ''job-1'') 10 5 s_tok = Some (Inl (TimeoutError 10), s') \<and>
         10 \<le> now s' - now s_tok \<and> now s' - now s_tok < 16"
proof -
  let ?I = "\<lambda>t. token (self t) = Some tok0 \<and> now t < 3000"
  have start: "?I s_tok" by (simp add: s_tok_fresh)
  have polls: "\<exists>status s1. get_workitem_status env_inprogress (JStr ''job-1'') t = (Inr status, s1) \<and>
                       py_get status ''status'' JNull = Inr (JStr ''inprogress'') \<and>
                       now t \<le> now s1 \<and> now s1 \<le> now t + 1 \<and> ?I (sleep 5 s1)"
    if "?I t" and "now t - now s_tok < 10" for t
  proof -
    from that have hit: "\<not> cache_miss t"
      by (simp add: cache_miss_def is_expired_def tok0_def)
    have "get_workitem_status env_inprogress (JStr ''job-1'') t =
        (Inr (JObj [(''id'', JStr ''job-1''), (''status'', JStr ''inprogress'')]),
         t\<lparr>now := now t + 1, status_gets := Suc (status_gets t)\<rparr>)"
      by (subst status_hit [OF hit])
         (simp_all add: env_inprogress_def checked_json_def is_success_def)
    then show ?thesis
      using that by (simp add: py_get_def sleep_def s_tok_fresh)
  qed
  have "(0::real) < 5" "(0::real) \<le> 1" by simp_all
  from poll_times_out [of 5 1 ?I s_tok 10 env_inprogress "JStr ''job-1''", OF this start polls]
  show ?thesis by auto
qed

theorem poll_raises_first_failure_witness:
  "poll_workitem env_failed (JStr ''job-1'') 600 5 s_tok =
     Some (Inl (RuntimeError ''WorkItem failed: '' (Some (JStr ''https://x/report''))),
           s_tok\<lparr>now := 8, status_gets := 2, slept := [5]\<rparr>)"
proof -
  let ?w = "JStr ''job-1''"
  let ?s1 = "s_tok\<lparr>now := 7, status_gets := Suc 0, slept := [5]\<rparr>"
  let ?kvs = "[(''id'', ?w), (''status'', JStr ''failedInstructions''),
               (''reportUrl'', JStr ''https://x/report'')]"
  have q0: "get_workitem_status env_failed ?w s_tok =
      (Inr (JObj [(''id'', ?w), (''status'', JStr ''pending'')]), s_tok\<lparr>now := 2, status_gets := Suc 0\<rparr>)"
    by (subst status_hit) (simp_all add: env_failed_def s_tok_hit s_tok_fields checked_json_def is_success_def)
  have q1: "get_workitem_status env_failed ?w ?s1 =
      (Inr (JObj ?kvs), s_tok\<lparr>now := 8, status_gets := Suc (Suc 0), slept := [5]\<rparr>)"
    by (subst status_hit) (simp_all add: env_failed_def s_tok_hit checked_json_def is_success_def)
  have r1: "after_rounds env_failed ?w 5 1 s_tok = ?s1"
    by (simp add: q0 sleep_s_tok)
  have k: "\<forall>i<1. poll_continues env_failed ?w (now s_tok) 600 (after_rounds env_failed ?w 5 i s_tok)"
    using q0 by (simp add: poll_continues_def py_get_def s_tok_fields still_running_def)
  have t: "now (after_rounds env_failed ?w 5 1 s_tok) - now s_tok < 600"
    by (simp only: r1) (simp add: s_tok_fields)
  have "poll_workitem env_failed ?w 600 5 s_tok =
     Some (Inl (RuntimeError ''WorkItem failed: ''
              (Some (case map_of ?kvs ''reportUrl'' of None \<Rightarrow> JStr ''No report'' | Some u \<Rightarrow> u))),
           s_tok\<lparr>now := 8, status_gets := Suc (Suc 0), slept := [5]\<rparr>)"
    by (rule poll_raises_first_failure [OF k t, unfolded r1, OF q1]) simp
  then show ?thesis by (simp add: numeral_2_eq_2)
qed

section \<open>Properties of the output fetch\<close>

lemma fetch_outputs_filter:
  "fetch_outputs e items outputs s = fetch_outputs e (filter has_url items) outputs s"
proof (induction items arbitrary: outputs s)
  case Nil
  show ?case by simp
next
  case (Cons item items)
  obtain name info where item: "item = (name, info)" by (cases item)
  show ?case
  proof (cases "has_url item")
    case False
    then show ?thesis using Cons.IH item
      by (auto simp: has_url_def split: json.splits option.splits)
  next
    case True
    then obtain kvs url where "info = JObj kvs" "map_of kvs ''url'' = Some url"
      using item by (auto simp: has_url_def split: json.splits)
    then show ?thesis using True item Cons.IH
      by (simp split: prod.splits sum.splits)
  qed
qed

lemma fetch_outputs_names:
  assumes dl: "\<And>u n. \<exists>d code content. signed_get e u n = (d, Response code content) \<and> is_success code"
  shows "\<forall>item\<in>set items. \<forall>kvs v. snd item = JObj kvs \<and> map_of kvs ''url'' = Some v \<longrightarrow> (\<exists>u. v = JStr u)
         \<Longrightarrow> \<exists>outs s'. fetch_outputs e items acc s = (Inr outs, s') \<and>
               fst ` set outs = fst ` set acc \<union> fst ` {item \<in> set items. has_url item}"
proof (induction items arbitrary: acc s)
  case Nil
  show ?case by simp
next
  case (Cons item items)
  obtain name info where item: "item = (name, info)" by (cases item)
  from Cons.prems have rest: "\<forall>item\<in>set items. \<forall>kvs v. snd item = JObj kvs \<and>
      map_of kvs ''url'' = Some v \<longrightarrow> (\<exists>u. v = JStr u)" by (meson list.set_intros(2))
  show ?case
  proof (cases "has_url item")
    case False
    then have "fetch_outputs e (item # items) acc s = fetch_outputs e items acc s"
      using item by (auto simp: has_url_def split: json.splits option.splits)
    moreover have "{i \<in> set (item # items). has_url i} = {i \<in> set items. has_url i}"
      using False by auto
    ultimately show ?thesis using Cons.IH [OF rest, of acc s] by simp
  next
    case True
    then obtain kvs v where info: "info = JObj kvs" "map_of kvs ''url'' = Some v"
      using item by (auto simp: has_url_def split: json.splits)
    with Cons.prems item obtain u where u: "v = JStr u" by auto
    from dl [of u "download_gets s"] obtain d code content where
      g: "signed_get e u (download_gets s) = (d, Response code content)" "is_success code"
      by blast
    let ?s1 = "s\<lparr>now := now s + d, download_gets := Suc (download_gets s),
                  downloaded := downloaded s + length content\<rparr>"
    have "download_file e v s = (Inr content, ?s1)"
      using g u by (simp add: download_file_def)
    then have "fetch_outputs e (item # items) acc s =
        fetch_outputs e items (AList.update name content acc) ?s1"
      using item info by simp
    moreover have "{i \<in> set (item # items). has_url i} = insert item {i \<in> set items. has_url i}"
      using True by auto
    ultimately show ?thesis
      using Cons.IH [OF rest, of "AList.update name content acc" ?s1] item
      by (auto simp: dom_update)
  qed
qed

text \<open>
  Claim C1, as the code has it. The fetch at the end of \<^verbatim>\<open>create_workitem_and_wait\<close>
  passes over every entry of the final status's \<^verbatim>\<open>arguments\<close> that is no dict or has no
  \<^verbatim>\<open>url\<close>: result and final state are those of the download loop over the entries with
  a \<^verbatim>\<open>url\<close> alone, so a missing location raises nothing. When every signed location
  answers 2xx and the locations are strings, the fetch succeeds and the returned map has
  exactly the names of the entries with a \<^verbatim>\<open>url\<close>.
\<close>

theorem fetch_all_skips_unresolved:
  assumes args: "map_of kvs ''arguments'' = Some (JObj items)"
  shows "fetch_all e (JObj kvs) s = fetch_outputs e (filter has_url items) [] s \<and>
         ((\<forall>u n. \<exists>d code content. signed_get e u n = (d, Response code content) \<and> is_success code) \<and>
          (\<forall>item\<in>set items. \<forall>kvs v. snd item = JObj kvs \<and> map_of kvs ''url'' = Some v \<longrightarrow>
              (\<exists>u. v = JStr u))
          \<longrightarrow> (\<exists>outs s'. fetch_all e (JObj kvs) s = (Inr outs, s') \<and>
                 fst ` set outs = fst ` {item \<in> set items. has_url item}))"
proof -
  have a: "fetch_all e (JObj kvs) s = fetch_outputs e items [] s"
    using args by (simp add: fetch_all_def py_get_def)
  show ?thesis
  proof (intro conjI impI)
    show "fetch_all e (JObj kvs) s = fetch_outputs e (filter has_url items) [] s"
      using a fetch_outputs_filter [of e items "[]" s] by simp
  next
    assume h: "(\<forall>u n. \<exists>d code content. signed_get e u n = (d, Response code content) \<and> is_success code) \<and>
          (\<forall>item\<in>set items. \<forall>kvs v. snd item = JObj kvs \<and> map_of kvs ''url'' = Some v \<longrightarrow>
              (\<exists>u. v = JStr u))"
    then have dl: "\<And>u n. \<exists>d code content. signed_get e u n = (d, Response code content) \<and> is_success code"
      by blast
    from h have st: "\<forall>item\<in>set items. \<forall>kvs v. snd item = JObj kvs \<and> map_of kvs ''url'' = Some v \<longrightarrow>
              (\<exists>u. v = JStr u)" by blast
    from fetch_outputs_names [of e items "[]" s, OF dl st] a
    show "\<exists>outs s'. fetch_all e (JObj kvs) s = (Inr outs, s') \<and>
                 fst ` set outs = fst ` {item \<in> set items. has_url item}"
      by simp
  qed
qed

theorem fetch_all_skips_unresolved_witness:
  "fetch_all env_partial
     (JObj [(''status'', JStr ''success''),
            (''arguments'', JObj [(''outputFamily'', JObj [(''url'', JStr ''https://x/rfa'')]),
                                  (''outputManifest'', JObj [(''verb'', JStr ''put'')])])]) s_tok
   = fetch_outputs env_partial [(''outputFamily'', JObj [(''url'', JStr ''https://x/rfa'')])] [] s_tok \<and>
   fetch_outputs env_partial [(''outputFamily'', JObj [(''url'', JStr ''https://x/rfa'')])] [] s_tok
   = (Inr [(''outputFamily'', [1, 2, 3])], s_tok\<lparr>now := 2, download_gets := 1, downloaded := 3\<rparr>) \<and>
   (\<exists>outs s'. fetch_all env_partial
     (JObj [(''status'', JStr ''success''),
            (''arguments'', JObj [(''outputFamily'', JObj [(''url'', JStr ''https://x/rfa'')]),
                                  (''outputManifest'', JObj [(''verb'', JStr ''put'')])])]) s_tok
       = (Inr outs, s') \<and> fst ` set outs = {''outputFamily''})"
proof -
  let ?items = "[(''outputFamily'', JObj [(''url'', JStr ''https://x/rfa'')]),
                 (''outputManifest'', JObj [(''verb'', JStr ''put'')])]"
  have m: "map_of [(''status'', JStr ''success''), (''arguments'', JObj ?items)] ''arguments''
            = Some (JObj ?items)"
    by simp
  have f: "filter has_url ?items = [(''outputFamily'', JObj [(''url'', JStr ''https://x/rfa'')])]"
    by (simp add: has_url_def)
  have r: "fetch_outputs env_partial [(''outputFamily'', JObj [(''url'', JStr ''https://x/rfa'')])] [] s_tok
      = (Inr [(''outputFamily'', [1, 2, 3])], s_tok\<lparr>now := 2, download_gets := 1, downloaded := 3\<rparr>)"
    by (simp add: download_file_def env_partial_def is_success_def Let_def
          s_tok_def s0_def set_token_def)
  have dl: "\<forall>u n. \<exists>d code content. signed_get env_partial u n = (d, Response code content) \<and> is_success code"
    by (simp add: env_partial_def is_success_def)
  have st: "\<forall>item\<in>set ?items. \<forall>kvs v. snd item = JObj kvs \<and> map_of kvs ''url'' = Some v \<longrightarrow>
              (\<exists>u. v = JStr u)"
    by auto
  have n: "fst ` {item \<in> set ?items. has_url item} = {''outputFamily''}"
  proof -
    have "{item \<in> set ?items. has_url item} = set (filter has_url ?items)"
      by (simp only: set_filter)
    then show ?thesis by (simp only: f) simp
  qed
  note t = fetch_all_skips_unresolved [OF m, of env_partial s_tok]
  from t [THEN conjunct2, rule_format, OF conjI, OF dl st] n
  have "\<exists>outs s'. fetch_all env_partial
     (JObj [(''status'', JStr ''success''), (''arguments'', JObj ?items)]) s_tok
       = (Inr outs, s') \<and> fst ` set outs = {''outputFamily''}"
    by simp
  with t [THEN conjunct1] f r show ?thesis by simp
qed

text \<open>
  Claim C1 as stated fails: the final status resolves the location of \<^verbatim>\<open>outputFamily\<close>
  and not that of \<^verbatim>\<open>outputManifest\<close>; the whole call returns normally with a
  one-entry artifact set, having downloaded three bytes.
\<close>

theorem partial_outputs_returned:
  "create_workitem_and_wait env_partial ''nick.Act+prod''
      (JObj [(''outputFamily'', JObj [(''verb'', JStr ''put'')]),
             (''outputManifest'', JObj [(''verb'', JStr ''put'')])]) 600 s_tok
   = Some (Inr (JObj [(''id'', JStr ''job-1''), (''status'', JStr ''success''),
                      (''arguments'', JObj [(''outputFamily'', JObj [(''url'', JStr ''https://x/rfa'')]),
                                            (''outputManifest'', JObj [(''verb'', JStr ''put'')])])],
                [(''outputFamily'', [1, 2, 3])]),
           s_tok\<lparr>now := 4, submit_posts := 1, status_gets := 1, download_gets := 1, downloaded := 3\<rparr>)"
proof -
  let ?args = "JObj [(''outputFamily'', JObj [(''verb'', JStr ''put'')]),
                     (''outputManifest'', JObj [(''verb'', JStr ''put'')])]"
  let ?w = "JObj [(''id'', JStr ''job-1''), (''status'', JStr ''pending'')]"
  let ?final = "JObj [(''id'', JStr ''job-1''), (''status'', JStr ''success''),
                      (''arguments'', JObj [(''outputFamily'', JObj [(''url'', JStr ''https://x/rfa'')]),
                                            (''outputManifest'', JObj [(''verb'', JStr ''put'')])])]"
  let ?s1 = "s_tok\<lparr>now := 2, submit_posts := Suc 0\<rparr>"
  let ?s2 = "s_tok\<lparr>now := 3, submit_posts := Suc 0, status_gets := Suc 0\<rparr>"
  let ?s3 = "s_tok\<lparr>now := 4, submit_posts := Suc 0, status_gets := Suc 0, download_gets := Suc 0,
                    downloaded := 3\<rparr>"
  have wp: "\<And>w n. workitems_post env_partial w n = (1, Response 200 (Some ?w))"
    by (simp add: env_partial_def)
  have wg: "\<And>n. workitem_get env_partial (JStr ''job-1'') n = (1, Response 200 (Some ?final))"
    by (simp add: env_partial_def)
  have sg: "\<And>u n. signed_get env_partial u n = (1, Response 200 [1, 2, 3])"
    by (simp add: env_partial_def)
  have ok: "is_success 200" by (simp add: is_success_def)
  have au: "authenticate env_partial s_tok = (Inr tok0, s_tok)"
    by (rule authenticate_fresh) (simp_all add: s_tok_fresh)
  have c: "create_workitem env_partial ''nick.Act+prod'' ?args s_tok = (Inr ?w, ?s1)"
    by (simp add: create_workitem_def au wp ok Let_def checked_json_def py_getitem_def)
       (simp add: s_tok_def s0_def set_token_def)
  have hit: "\<not> cache_miss ?s1" by (simp add: world_defs)
  have q: "get_workitem_status env_partial (JStr ''job-1'') ?s1 = (Inr ?final, ?s2)"
    by (subst status_hit [OF hit])
       (simp_all add: wg ok checked_json_def s_tok_def s0_def set_token_def)
  have p: "poll_workitem env_partial (JStr ''job-1'') 600 5 ?s1 = Some (Inr ?final, ?s2)"
    unfolding poll_workitem_def
    by (rule poll_loop_success [OF _ q]) (simp_all add: py_get_def)
  have f: "fetch_all env_partial ?final ?s2 = (Inr [(''outputFamily'', [1, 2, 3])], ?s3)"
    by (simp add: fetch_all_def py_get_def download_file_def sg ok Let_def
          s_tok_def s0_def set_token_def)
  show ?thesis
    by (simp add: create_workitem_and_wait_def c py_getitem_def p f)
qed

section \<open>Properties of concurrent callers\<close>

lemma run_append: "run e (a @ b) c = run e b (run e a c)"
proof (induction a arbitrary: c)
  case Nil
  show ?case by simp
next
  case (Cons x a)
  obtain i t where x: "x = (i, t)" by (cases x)
  obtain tasks s where c: "c = (tasks, s)" by (cases c)
  show ?case using Cons.IH by (simp add: x c Let_def split: prod.splits)
qed

lemma run_frame:
  "\<forall>x\<in>set schedule. fst x < length tasks \<Longrightarrow>
   run e schedule (tasks @ extra, s) =
     (fst (run e schedule (tasks, s)) @ extra, snd (run e schedule (tasks, s)))"
proof (induction schedule arbitrary: tasks s)
  case Nil
  show ?case by simp
next
  case (Cons x schedule)
  obtain i t where x: "x = (i, t)" by (cases x)
  from Cons.prems x have i: "i < length tasks" by simp
  obtain tk s1 where r: "resume e t (tasks ! i) s = (tk, s1)" by (cases "resume e t (tasks ! i) s")
  have "\<forall>x\<in>set schedule. fst x < length (tasks[i := tk])" using Cons.prems by simp
  from Cons.IH [OF this, of s1] show ?case
    using i r by (simp add: x nth_append list_update_append1)
qed

lemma resume_ready_empty:
  "token (self s) = None \<Longrightarrow>
   resume e t (Ready n) s = (Posted n (auth_posts s), s\<lparr>now := t, auth_posts := Suc (auth_posts s)\<rparr>)"
  by (simp add: resume_def)

text \<open>
  One caller alone, resumed when its call starts and when the answer is there, does what
  \<^verbatim>\<open>authenticate\<close> does.
\<close>

lemma single_caller_agrees:
  assumes miss: "cache_miss s"
      and resp: "token_post e (auth_posts s) = (d, Response code body)"
      and ok: "is_success code"
  shows "run e [(0, now s), (0, now s + d)] ([Ready 1], s) =
           ([Done (fst (authenticate e s))], snd (authenticate e s))"
proof -
  let ?s1 = "s\<lparr>now := now s + d, auth_posts := Suc (auth_posts s)\<rparr>"
  have a: "authenticate e s = token_from (Response code body) ?s1"
    using authenticate_first_2xx [OF miss resp ok] resp by (simp add: exchange_def)
  have r1: "resume e (now s) (Ready (Suc 0)) s = (Posted (Suc 0) (auth_posts s), s\<lparr>auth_posts := Suc (auth_posts s)\<rparr>)"
    using miss by (auto simp: resume_def cache_miss_def split: option.splits)
  obtain r s2 where t: "token_from (Response code body) ?s1 = (r, s2)"
    by (cases "token_from (Response code body) ?s1")
  have fatal: "\<And>x. r = Inl x \<Longrightarrow> \<not> auth_retryable x"
    using exchange_2xx_error_fatal [OF resp ok, of _ s2] t resp by (simp add: exchange_def)
  have sw: "s\<lparr>auth_posts := Suc (auth_posts s), now := now s + d\<rparr> = ?s1"
    by (cases s) simp
  have r2: "resume e (now s + d) (Posted (Suc 0) (auth_posts s)) (s\<lparr>auth_posts := Suc (auth_posts s)\<rparr>) =
      (Done r, s2)"
  proof (cases r)
    case (Inl x)
    with fatal have "\<not> auth_retryable x" by simp
    with t resp Inl show ?thesis by (simp add: resume_def sw)
  next
    case (Inr tok)
    with t resp show ?thesis by (simp add: resume_def sw)
  qed
  show ?thesis by (simp add: r1 r2 a t)
qed

text \<open>
  Claim C8, as the code has it. \<open>N\<close> callers start \<^verbatim>\<open>authenticate\<close> together on a client
  with no token: each runs up to its own POST before any answer is handled. Every one of
  them finds the cache empty and sends a request of its own, so \<open>N\<close> exchanges are under
  way, the \<open>i\<close>-th caller waiting for the answer to the \<open>i\<close>-th of them. No caller waits
  for another caller's exchange: the refresh is not single-flight.
\<close>

theorem concurrent_callers_each_exchange:
  assumes empty: "token (self s) = None"
  shows "fst (run e (map (\<lambda>i. (i, t)) [0..<N]) (replicate N (Ready 1), s)) =
           map (\<lambda>i. Posted 1 (auth_posts s + i)) [0..<N] \<and>
         auth_posts (snd (run e (map (\<lambda>i. (i, t)) [0..<N]) (replicate N (Ready 1), s))) =
           auth_posts s + N"
proof -
  have full: "run e (map (\<lambda>i. (i, t)) [0..<M]) (replicate M (Ready n), s) =
           (map (\<lambda>i. Posted n (auth_posts s + i)) [0..<M],
            if M = 0 then s else s\<lparr>now := t, auth_posts := auth_posts s + M\<rparr>)" for M n
  proof (induction M)
    case 0
    show ?case by simp
  next
    case (Suc M)
    let ?sch = "map (\<lambda>i. (i, t)) [0..<M]"
    let ?sN = "if M = 0 then s else s\<lparr>now := t, auth_posts := auth_posts s + M\<rparr>"
    let ?P = "map (\<lambda>i. Posted n (auth_posts s + i)) [0..<M]"
    have fr: "run e ?sch (replicate M (Ready n) @ [Ready n], s) = (?P @ [Ready n], ?sN)"
    proof -
      have "run e ?sch (replicate M (Ready n) @ [Ready n], s) =
          (fst (run e ?sch (replicate M (Ready n), s)) @ [Ready n],
           snd (run e ?sch (replicate M (Ready n), s)))"
        by (rule run_frame) simp
      then show ?thesis by (simp only: Suc.IH fst_conv snd_conv)
    qed
    have tk: "token (self ?sN) = None" using empty by simp
    have ap: "auth_posts ?sN = auth_posts s + M" by simp
    have st: "run e [(M, t)] (?P @ [Ready n], ?sN) =
        (?P @ [Posted n (auth_posts s + M)], s\<lparr>now := t, auth_posts := auth_posts s + Suc M\<rparr>)"
      using resume_ready_empty [OF tk, of e t n]
      by (simp add: nth_append list_update_append ap del: replicate_Suc)
    have rs: "replicate (Suc M) (Ready n) = replicate M (Ready n) @ [Ready n]"
      by (simp add: replicate_append_same)
    have sch: "map (\<lambda>i. (i, t)) [0..<Suc M] = ?sch @ [(M, t)]" by simp
    have "run e (map (\<lambda>i. (i, t)) [0..<Suc M]) (replicate (Suc M) (Ready n), s) =
        (?P @ [Posted n (auth_posts s + M)], s\<lparr>now := t, auth_posts := auth_posts s + Suc M\<rparr>)"
      by (simp only: rs sch run_append fr st)
    then show ?case by simp
  qed
  show ?thesis by (simp only: full fst_conv snd_conv) simp
qed

theorem concurrent_callers_each_exchange_witness:
  "token (self s0) = None \<and>
   fst (run env_auth [(0, 0), (1, 0), (2, 0)] ([Ready 1, Ready 1, Ready 1], s0)) =
     [Posted 1 0, Posted 1 1, Posted 1 2] \<and>
   auth_posts (snd (run env_auth [(0, 0), (1, 0), (2, 0)] ([Ready 1, Ready 1, Ready 1], s0))) = 3"
proof -
  have e: "token (self s0) = None" by (simp add: s0_def APSClient_init_def)
  have u: "[0..<3] = [0, 1, 2]" by (simp add: upt_rec)
  have r: "\<And>x::task. replicate 3 x = [x, x, x]" by (simp add: numeral_3_eq_3)
  have a: "auth_posts s0 = 0" by (simp add: s0_def)
  from concurrent_callers_each_exchange [OF e, of env_auth 0 3] e show ?thesis
    by (simp add: u r a)
qed

text \<open>
  Claim C8 as stated fails: two callers on a client with no token, both started before the
  first answer is handled, perform two exchanges.
\<close>

theorem two_callers_two_exchanges:
  "token (self s0) = None \<and>
   run env_auth [(0, 0), (1, 0), (0, 1), (1, 1)] ([Ready 1, Ready 1], s0) =
     ([Done (Inr tok0), Done (Inr tok0)], set_token tok0 (s0\<lparr>now := 1, auth_posts := 2\<rparr>))"
  by (simp add: resume_def s0_def APSClient_init_def env_auth_def env_down_def token_from_def
        checked_json_def is_success_def py_get_def py_getitem_def py_add_def set_token_def
        tok0_def Let_def)

end
